theory Spec2Isabelle
  imports
    Complex_Main
    "HOL-Library.Multiset"
    "HOL-Library.Product_Lexorder"
    "HOL-Library.List_Lexorder"
    "HOL-Library.Char_ord"
begin

section \<open>Values, errors and tables\<close>

text \<open>
  The two notebooks (McKinney chapter 10 and Lewinson chapter 1) are sequences of cells
  that build tables, call the tabular-data library on them and show the result. The
  only functions they define themselves are \<open>peak_to_peak\<close> and \<open>top\<close>.

  Numbers are modelled as exact reals: rounding, infinities and machine-integer
  wrap-around are outside the model. A missing value (pandas' NaN / NA) is the
  separate constructor \<open>NaN\<close>. Exceptions raised inside a library call are values
  of type \<open>error\<close>, and a call that may raise returns \<open>error + 'a\<close>;
  \<open>LibraryError\<close> stands for whatever an unmodelled library call or the network
  raises, with its message.
\<close>

datatype error =
    KeyError string
  | TypeError
  | ValueError
  | LibraryError string

datatype cell = Num real | Str string | NaN

datatype label =
    Pos nat
  | Name string
  | Key cell
  | Day nat nat nat
  | Month nat
  | Multi label label

text \<open>
  A table keeps its column names and its rows; a row is its index label with the
  value of every column. A Series is a list of cells.
\<close>

type_synonym row = "label \<times> (string \<times> cell) list"

record frame =
  columns :: "string list"
  rows :: "row list"

definition cell_of :: "string \<Rightarrow> row \<Rightarrow> cell" where
  "cell_of c r = (case map_of (snd r) c of Some v \<Rightarrow> v | None \<Rightarrow> NaN)"

definition column :: "frame \<Rightarrow> string \<Rightarrow> error + cell list" where
  "column f c =
     (if c \<in> set (columns f) then Inr (map (cell_of c) (rows f)) else Inl (KeyError c))"


fun is_str :: "cell \<Rightarrow> bool" where
  "is_str (Str s) = True"
| "is_str c = False"

fun nums :: "cell list \<Rightarrow> real list" where
  "nums [] = []"
| "nums (Num x # cs) = x # nums cs"
| "nums (c # cs) = nums cs"

section \<open>The library operations the notebook functions call\<close>









text \<open>
  Library calls are chained with \<open>and_then\<close>: the first exception ends the chain.
\<close>

definition and_then :: "error + 'a \<Rightarrow> ('a \<Rightarrow> error + 'b) \<Rightarrow> error + 'b" where
  "and_then m f = (case m of Inl e \<Rightarrow> Inl e | Inr v \<Rightarrow> f v)"


text \<open>
  \<open>mean\<close>, \<open>std\<close> (sample standard deviation, \<open>n - 1\<close> in the denominator) and
  \<open>count\<close> of a Series: missing values are skipped, \<open>count\<close> is the number of
  values that are not missing.
\<close>

definition series_mean :: "cell list \<Rightarrow> cell" where
  "series_mean cs =
     (if nums cs = [] then NaN else Num (sum_list (nums cs) / real (length (nums cs))))"

definition series_std :: "cell list \<Rightarrow> cell" where
  "series_std cs =
     (let xs = nums cs; n = length xs; m = sum_list xs / real n
      in if n < 2 then NaN
         else Num (sqrt (sum_list (map (\<lambda>x. (x - m)\<^sup>2) xs) / real (n - 1))))"

definition series_count :: "cell list \<Rightarrow> nat" where
  "series_count cs = length (filter (\<lambda>c. c \<noteq> NaN) cs)"

text \<open>
  \<open>pd.DataFrame(dict)\<close> builds a table from named columns of one length, indexed
  \<open>0, 1, ...\<close>; \<open>pd.DataFrame(data, columns, index)\<close> builds it from rows.
  Columns of different lengths, or a shape that does not fit, raise \<open>ValueError\<close>.
\<close>

definition DataFrame_of_dict :: "(string \<times> cell list) list \<Rightarrow> error + frame" where
  "DataFrame_of_dict cols =
     (case cols of
        [] \<Rightarrow> Inr \<lparr>columns = [], rows = []\<rparr>
      | (c, vs) # rest \<Rightarrow>
          if list_all (\<lambda>(c', vs'). length vs' = length vs) rest
          then Inr \<lparr>columns = map fst cols,
                    rows = map (\<lambda>i. (Pos i, map (\<lambda>(c', vs'). (c', vs' ! i)) cols))
                             [0..<length vs]\<rparr>
          else Inl ValueError)"

definition DataFrame_of_rows :: "cell list list \<Rightarrow> string list \<Rightarrow> label list \<Rightarrow> error + frame" where
  "DataFrame_of_rows data cols idx =
     (if length data = length idx \<and> list_all (\<lambda>r. length r = length cols) data
      then Inr \<lparr>columns = cols, rows = map (\<lambda>(l, r). (l, zip cols r)) (zip idx data)\<rparr>
      else Inl ValueError)"

definition reshape :: "nat \<Rightarrow> nat \<Rightarrow> 'a list \<Rightarrow> 'a list list" where
  "reshape r c xs = map (\<lambda>i. take c (drop (i * c) xs)) [0..<r]"










text \<open>
  \<open>x[c] = values\<close> replaces column \<open>c\<close> or appends it as the last column;
  \<open>Series.shift(1)\<close> moves every value one row down.
\<close>

definition put_cell :: "string \<Rightarrow> cell \<Rightarrow> (string \<times> cell) list \<Rightarrow> (string \<times> cell) list" where
  "put_cell c v kvs =
     (if c \<in> fst ` set kvs then map (\<lambda>(k, w). if k = c then (k, v) else (k, w)) kvs
      else kvs @ [(c, v)])"

definition set_column :: "frame \<Rightarrow> string \<Rightarrow> cell list \<Rightarrow> error + frame" where
  "set_column x c vs =
     (if length vs \<noteq> length (rows x) then Inl ValueError
      else Inr \<lparr>columns = (if c \<in> set (columns x) then columns x else columns x @ [c]),
                rows = map (\<lambda>((l, kvs), v). (l, put_cell c v kvs)) (zip (rows x) vs)\<rparr>)"

definition shift1 :: "cell list \<Rightarrow> cell list" where
  "shift1 cs = (if cs = [] then [] else NaN # butlast cs)"

text \<open>
  \<open>x.resample(rule='M', kind='period')\<close> needs a table indexed by days
  (\<open>TypeError\<close> otherwise) and bins its rows by calendar month, one bin for every
  month from the first to the last, empty months included. A month is numbered
  \<open>12 * year + (month - 1)\<close>.
\<close>

fun month_of :: "label \<Rightarrow> nat option" where
  "month_of (Day y m d) = Some (12 * y + (m - 1))"
| "month_of l = None"

record resampler =
  source_columns :: "string list"
  bins :: "(label \<times> row list) list"

definition resample_M :: "frame \<Rightarrow> error + resampler" where
  "resample_M x =
     (if list_ex (\<lambda>r. month_of (fst r) = None) (rows x) then Inl TypeError
      else
        let ms = List.map_filter (\<lambda>r. month_of (fst r)) (rows x);
            ks = (if ms = [] then [] else [Min (set ms) ..< Suc (Max (set ms))])
        in Inr \<lparr>source_columns = columns x,
                bins = map (\<lambda>k. (Month k, filter (\<lambda>r. month_of (fst r) = Some k) (rows x)))
                         ks\<rparr>)"

definition pick :: "resampler \<Rightarrow> string \<Rightarrow> error + (label \<times> cell list) list" where
  "pick g c =
     (if c \<in> set (source_columns g)
      then Inr (map (\<lambda>(l, rs). (l, map (cell_of c) rs)) (bins g))
      else Inl (KeyError c))"

definition agg_mean_std_count :: "(label \<times> cell list) list \<Rightarrow> frame" where
  "agg_mean_std_count g =
     \<lparr>columns = [''mean'', ''std'', ''count''],
      rows = map (\<lambda>(l, cs). (l, [(''mean'', series_mean cs), (''std'', series_std cs),
                                   (''count'', Num (real (series_count cs)))])) g\<rparr>"

text \<open>
  \<open>query('c >= v')\<close> keeps the rows whose column \<open>c\<close> is at least \<open>v\<close>;
  \<open>drop(columns=cs)\<close> removes columns; \<open>mul(v)\<close> multiplies every number.
\<close>

fun cell_ge :: "cell \<Rightarrow> real \<Rightarrow> bool" where
  "cell_ge (Num x) v = (v \<le> x)"
| "cell_ge c v = False"

definition query_ge :: "frame \<Rightarrow> string \<Rightarrow> real \<Rightarrow> error + frame" where
  "query_ge x c v =
     (if c \<in> set (columns x)
      then Inr (x\<lparr>rows := filter (\<lambda>r. cell_ge (cell_of c r) v) (rows x)\<rparr>)
      else Inl (KeyError c))"

definition drop_columns :: "frame \<Rightarrow> string list \<Rightarrow> error + frame" where
  "drop_columns x cs =
     (case filter (\<lambda>c. c \<notin> set (columns x)) cs of
        c # rest \<Rightarrow> Inl (KeyError c)
      | [] \<Rightarrow> Inr \<lparr>columns = filter (\<lambda>c. c \<notin> set cs) (columns x),
                  rows = map (\<lambda>(l, kvs). (l, filter (\<lambda>(k, v). k \<notin> set cs) kvs)) (rows x)\<rparr>)"

fun cell_mul :: "real \<Rightarrow> cell \<Rightarrow> cell" where
  "cell_mul v (Num x) = Num (x * v)"
| "cell_mul v c = c"

definition frame_mul :: "frame \<Rightarrow> real \<Rightarrow> error + frame" where
  "frame_mul x v =
     (if list_ex (\<lambda>(l, kvs). list_ex (\<lambda>(k, c). is_str c) kvs) (rows x) then Inl TypeError
      else Inr (x\<lparr>rows := map (\<lambda>(l, kvs). (l, map (\<lambda>(k, c). (k, cell_mul v c)) kvs))
                            (rows x)\<rparr>))"



section \<open>The functions the notebooks define\<close>





section \<open>The monthly aggregates of daily returns\<close>

text \<open>
  Lewinson, first table (volatility clustering):

  \<^verbatim>\<open>spy_m = (spy.resample(rule='M', kind='period')['Return']
    .agg(['mean', 'std', 'count']).query('count >= 15')
    .drop(columns=['count']).mul(100))\<close>

  and the table built again for the leverage effect, with one more step:

  \<^verbatim>\<open>.assign(mean_lag1 = lambda x: x['mean'].shift(1))\<close>
\<close>

definition spy_m :: "frame \<Rightarrow> error + frame" where
  "spy_m spy =
     and_then (resample_M spy) (\<lambda>r.
     and_then (pick r ''Return'') (\<lambda>g.
     and_then (query_ge (agg_mean_std_count g) ''count'' 15) (\<lambda>q.
     and_then (drop_columns q [''count'']) (\<lambda>d.
     frame_mul d 100))))"

definition spy_m_lag :: "frame \<Rightarrow> error + frame" where
  "spy_m_lag spy =
     and_then (spy_m spy) (\<lambda>x.
     and_then (column x ''mean'') (\<lambda>m.
     set_column x ''mean_lag1'' (shift1 m)))"

text \<open>What the claims say about these tables is stated with the following.\<close>

definition month_returns :: "frame \<Rightarrow> nat \<Rightarrow> cell list" where
  "month_returns spy k =
     map (cell_of ''Return'') (filter (\<lambda>r. month_of (fst r) = Some k) (rows spy))"

definition monthly_row :: "frame \<Rightarrow> nat \<Rightarrow> row" where
  "monthly_row spy k =
     (Month k, [(''mean'', cell_mul 100 (series_mean (month_returns spy k))),
                (''std'', cell_mul 100 (series_std (month_returns spy k)))])"

definition with_lag :: "row list \<Rightarrow> row list" where
  "with_lag rs =
     map (\<lambda>((l, kvs), v). (l, kvs @ [(''mean_lag1'', v)]))
       (zip rs (shift1 (map (cell_of ''mean'') rs)))"

section \<open>The notebook kernel\<close>

text \<open>
  A notebook runs in one kernel: a namespace that maps the names bound so far to their
  values, the state of numpy's global random generator, and the output shown so far.
  Cells run one after the other on this state; nothing else is kept.

  The cached HTTP session is its one setting, the argument the notebooks pass.
  A function defined by a \<open>def\<close> is bound to its name like any other value.
  \<open>Object f args\<close> is what an unmodelled library call may return: some library
  object.
\<close>

record session =
  expire_after :: string

datatype val =
    Table frame
  | Scalar cell
  | Session session
  | Function string
  | Text string
  | Items "val list"
  | Dict "(val \<times> val) list"
  | Object string "val list"


record 'g kernel =
  vars :: "string \<Rightarrow> val option"
  rng :: 'g
  shown :: "val list"

text \<open>
  What the notebooks take from outside: the network behind \<open>yf.download\<close> (given
  the tickers and the session), numpy's generator (\<open>seed\<close>, and \<open>randn\<close> drawing
  \<open>n\<close> numbers from a generator state), and every library call the model does
  not interpret, named by its source text and applied to the values it reads. The
  network and the library may raise, with a message. Values are immutable: a library
  call cannot change a value passed to it.
\<close>

record 'g world =
  download :: "string \<Rightarrow> val \<Rightarrow> string + val"
  seed :: "nat \<Rightarrow> 'g"
  randn :: "'g \<Rightarrow> nat \<Rightarrow> real list \<times> 'g"
  library :: "string \<Rightarrow> val list \<Rightarrow> string + val"

text \<open>
  A cell fails either because a name is not bound (\<open>NameError\<close>, raised by the
  kernel) or because a library call raised. The notebooks contain no \<open>try\<close>: the
  only control flow is the sequence of statements, so an expression is a function from
  the kernel state to a result or an exception and the state it left.
\<close>

datatype fault = NameError string | Raised error

type_synonym ('g, 'a) py = "'g kernel \<Rightarrow> (fault + 'a) \<times> 'g kernel"

type_synonym 'g stmt = "'g kernel \<Rightarrow> fault option \<times> 'g kernel"

definition ret :: "'a \<Rightarrow> ('g, 'a) py" where
  "ret v s = (Inr v, s)"

definition bnd :: "('g, 'a) py \<Rightarrow> ('a \<Rightarrow> ('g, 'b) py) \<Rightarrow> ('g, 'b) py" where
  "bnd m f s = (case m s of (Inl e, s') \<Rightarrow> (Inl e, s') | (Inr v, s') \<Rightarrow> f v s')"

definition var :: "string \<Rightarrow> ('g, val) py" where
  "var x s = (case vars s x of None \<Rightarrow> (Inl (NameError x), s) | Some v \<Rightarrow> (Inr v, s))"

fun var_list :: "string list \<Rightarrow> ('g, val list) py" where
  "var_list [] = ret []"
| "var_list (x # xs) = bnd (var x) (\<lambda>v. bnd (var_list xs) (\<lambda>vs. ret (v # vs)))"

definition lift :: "error + 'a \<Rightarrow> ('g, 'a) py" where
  "lift r s = (case r of Inl e \<Rightarrow> (Inl (Raised e), s) | Inr v \<Rightarrow> (Inr v, s))"

definition extern :: "string + 'a \<Rightarrow> ('g, 'a) py" where
  "extern r s = (case r of Inl msg \<Rightarrow> (Inl (Raised (LibraryError msg)), s) | Inr v \<Rightarrow> (Inr v, s))"

definition table :: "string \<Rightarrow> ('g, frame) py" where
  "table x = bnd (var x) (\<lambda>v. case v of Table f \<Rightarrow> ret f | _ \<Rightarrow> lift (Inl TypeError))"

text \<open>
  An unmodelled library expression: the names it reads are looked up in the order
  they occur, then the library is called on their values.
\<close>

definition lib_expr :: "'g world \<Rightarrow> string \<Rightarrow> string list \<Rightarrow> ('g, val) py" where
  "lib_expr W text xs = bnd (var_list xs) (\<lambda>vs. extern (library W text vs))"

definition np_randn :: "'g world \<Rightarrow> nat \<Rightarrow> ('g, real list) py" where
  "np_randn W n s = (case randn W (rng s) n of (xs, g) \<Rightarrow> (Inr xs, s\<lparr>rng := g\<rparr>))"

text \<open>
  Statements: \<open>x = e\<close>; an expression whose value the cell shows (the last
  expression of a cell, a \<open>print\<close>, a plot); \<open>np.random.seed(n)\<close>. A cell,
  and a notebook, is a list of statements run until one fails.
\<close>

definition assign :: "string \<Rightarrow> ('g, val) py \<Rightarrow> 'g stmt" where
  "assign x m s =
     (case m s of
        (Inl e, s') \<Rightarrow> (Some e, s')
      | (Inr v, s') \<Rightarrow> (None, s'\<lparr>vars := (vars s')(x \<mapsto> v)\<rparr>))"

definition display :: "('g, val) py \<Rightarrow> 'g stmt" where
  "display m s =
     (case m s of
        (Inl e, s') \<Rightarrow> (Some e, s')
      | (Inr v, s') \<Rightarrow> (None, s'\<lparr>shown := shown s' @ [v]\<rparr>))"

definition np_seed :: "'g world \<Rightarrow> nat \<Rightarrow> 'g stmt" where
  "np_seed W n s = (None, s\<lparr>rng := seed W n\<rparr>)"

fun run :: "'g stmt list \<Rightarrow> 'g stmt" where
  "run [] s = (None, s)"
| "run (c # cs) s = (case c s of (Some e, s') \<Rightarrow> (Some e, s') | (None, s') \<Rightarrow> run cs s')"



section \<open>McKinney chapter 10, cell by cell\<close>




text \<open>
  \<^verbatim>\<open>np.random.seed(42)
  df = pd.DataFrame({'key1': ['a', 'a', 'b', 'b', 'a'],
                     'key2': ['one', 'two', 'one', 'two', 'one'],
                     'data1': np.random.randn(5), 'data2': np.random.randn(5)})\<close>
\<close>

definition mck_df :: "'g world \<Rightarrow> 'g stmt" where
  "mck_df W =
     run [np_seed W 42,
          assign ''df''
            (bnd (np_randn W 5) (\<lambda>d1.
             bnd (np_randn W 5) (\<lambda>d2.
             bnd (lift (DataFrame_of_dict
                    [(''key1'', map Str [''a'', ''a'', ''b'', ''b'', ''a'']),
                     (''key2'', map Str [''one'', ''two'', ''one'', ''two'', ''one'']),
                     (''data1'', map Num d1),
                     (''data2'', map Num d2)])) (\<lambda>f.
             ret (Table f)))))]"
















text \<open>
  \<^verbatim>\<open>np.random.seed(42)
  people = pd.DataFrame(data=np.random.randn(5, 5), columns=['a', 'b', 'c', 'd', 'e'],
                        index=['Joe', 'Steve', 'Wes', 'Jim', 'Travis'])\<close>
\<close>

definition mck_people :: "'g world \<Rightarrow> 'g stmt" where
  "mck_people W =
     run [np_seed W 42,
          assign ''people''
            (bnd (np_randn W (5 * 5)) (\<lambda>d.
             bnd (lift (DataFrame_of_rows (reshape 5 5 (map Num d))
                    [''a'', ''b'', ''c'', ''d'', ''e'']
                    (map Name [''Joe'', ''Steve'', ''Wes'', ''Jim'', ''Travis'']))) (\<lambda>f.
             ret (Table f))))]"





















section \<open>Lewinson chapter 1, cell by cell\<close>



















section \<open>Worlds and tables for worked evaluations\<close>

text \<open>
  A world with the network down, a counter for a generator, and a library that
  returns an object recording the call; the same world with the network answering
  with a given value; and the start of a kernel.
\<close>

definition offline :: "nat world" where
  "offline =
     \<lparr>download = (\<lambda>tickers sess. Inl ''no network''),
      seed = (\<lambda>n. n),
      randn = (\<lambda>g n. (map real [g..<g + n], g + n)),
      library = (\<lambda>f vs. Inr (Object f vs))\<rparr>"


definition fresh :: "nat kernel" where
  "fresh = \<lparr>vars = Map.empty, rng = 0, shown = []\<rparr>"


definition returns_of :: "nat \<Rightarrow> nat \<Rightarrow> nat \<Rightarrow> real \<Rightarrow> row list" where
  "returns_of y m n v = map (\<lambda>d. (Day y m (Suc d), [(''Return'', Num v)])) [0..<n]"

definition two_months :: frame where
  "two_months =
     \<lparr>columns = [''Return''],
      rows = returns_of 2020 1 15 (1 / 100) @ returns_of 2020 2 3 (1 / 50)\<rparr>"


definition january :: frame where
  "january =
     \<lparr>columns = [''mean'', ''std''],
      rows = [(Month 24240, [(''mean'', Num 1), (''std'', Num 0)])]\<rparr>"


section \<open>What cells keep and what they need\<close>

text \<open>
  \<open>keeps x c\<close>: running \<open>c\<close> leaves the binding of \<open>x\<close> as it was, whether
  \<open>c\<close> fails or not. \<open>safe X c Y\<close>: from a state in which the names in \<open>X\<close>
  are bound, \<open>c\<close> does not fail on an unbound name, and where it succeeds the names
  in \<open>Y\<close> are bound.
\<close>

definition keeps :: "string \<Rightarrow> 'g stmt \<Rightarrow> bool" where
  "keeps x c = (\<forall>s. vars (snd (c s)) x = vars s x)"

definition keeps_e :: "string \<Rightarrow> ('g, 'a) py \<Rightarrow> bool" where
  "keeps_e x m = (\<forall>s. vars (snd (m s)) x = vars s x)"

definition bound :: "string set \<Rightarrow> 'g kernel \<Rightarrow> bool" where
  "bound X s = (\<forall>x\<in>X. vars s x \<noteq> None)"

definition safe_e :: "string set \<Rightarrow> ('g, 'a) py \<Rightarrow> bool" where
  "safe_e X m =
     (\<forall>s. bound X s \<longrightarrow> (\<forall>x. fst (m s) \<noteq> Inl (NameError x)) \<and> bound X (snd (m s)))"

definition safe :: "string set \<Rightarrow> 'g stmt \<Rightarrow> string set \<Rightarrow> bool" where
  "safe X c Y =
     (\<forall>s. bound X s \<longrightarrow> (\<forall>x. fst (c s) \<noteq> Some (NameError x))
                        \<and> (fst (c s) = None \<longrightarrow> bound Y (snd (c s))))"

section \<open>Rules for the statements of a cell\<close>

named_theorems keeps_intros
named_theorems safe_intros

lemma keeps_e_ret [keeps_intros]: "keeps_e x (ret v)"
  by (simp add: keeps_e_def ret_def)

lemma keeps_e_lift [keeps_intros]: "keeps_e x (lift r)"
  by (simp add: keeps_e_def lift_def split: sum.splits)

lemma keeps_e_extern [keeps_intros]: "keeps_e x (extern r)"
  by (simp add: keeps_e_def extern_def split: sum.splits)

lemma keeps_e_var [keeps_intros]: "keeps_e x (var y)"
  by (simp add: keeps_e_def var_def split: option.splits)

lemma keeps_e_randn [keeps_intros]: "keeps_e x (np_randn W n)"
  by (simp add: keeps_e_def np_randn_def split: prod.splits)

lemma keeps_e_bnd [keeps_intros]:
  assumes "keeps_e x m" and "\<And>v. keeps_e x (f v)"
  shows "keeps_e x (bnd m f)"
  unfolding keeps_e_def
proof
  fix s
  obtain r s' where ms: "m s = (r, s')" by (cases "m s")
  from assms(1) ms have s': "vars s' x = vars s x" by (auto simp: keeps_e_def dest: spec [of _ s])
  show "vars (snd (bnd m f s)) x = vars s x"
  proof (cases r)
    case (Inl e)
    with ms s' show ?thesis by (simp add: bnd_def)
  next
    case (Inr v)
    from assms(2) [of v] have "vars (snd (f v s')) x = vars s' x" by (simp add: keeps_e_def)
    with ms s' Inr show ?thesis by (simp add: bnd_def)
  qed
qed

lemma keeps_e_var_list [keeps_intros]: "keeps_e x (var_list ys)"
  by (induction ys) (auto intro!: keeps_intros)

lemma keeps_e_table [keeps_intros]: "keeps_e x (table y)"
  unfolding table_def by (auto intro!: keeps_intros split: val.splits)

lemma keeps_e_lib_expr [keeps_intros]: "keeps_e x (lib_expr W t ys)"
  unfolding lib_expr_def by (auto intro!: keeps_intros)

lemma keeps_assign [keeps_intros]:
  assumes "x \<noteq> y" and "keeps_e x m"
  shows "keeps x (assign y m)"
  unfolding keeps_def
proof
  fix s
  obtain r s' where ms: "m s = (r, s')" by (cases "m s")
  from assms(2) ms have "vars s' x = vars s x" by (auto simp: keeps_e_def dest: spec [of _ s])
  with ms assms(1) show "vars (snd (assign y m s)) x = vars s x"
    by (cases r) (simp_all add: assign_def)
qed

lemma keeps_display [keeps_intros]:
  assumes "keeps_e x m"
  shows "keeps x (display m)"
  unfolding keeps_def
proof
  fix s
  obtain r s' where ms: "m s = (r, s')" by (cases "m s")
  from assms ms have "vars s' x = vars s x" by (auto simp: keeps_e_def dest: spec [of _ s])
  with ms show "vars (snd (display m s)) x = vars s x"
    by (cases r) (simp_all add: display_def)
qed

lemma keeps_seed [keeps_intros]: "keeps x (np_seed W n)"
  by (simp add: keeps_def np_seed_def)

lemma keeps_run_Nil [keeps_intros]: "keeps x (run [])"
  by (simp add: keeps_def)

lemma keeps_run_Cons [keeps_intros]:
  assumes "keeps x c" and "keeps x (run cs)"
  shows "keeps x (run (c # cs))"
  unfolding keeps_def
proof
  fix s
  obtain r s' where cs: "c s = (r, s')" by (cases "c s")
  from assms(1) cs have s': "vars s' x = vars s x" by (auto simp: keeps_def dest: spec [of _ s])
  show "vars (snd (run (c # cs) s)) x = vars s x"
  proof (cases r)
    case None
    from assms(2) have "vars (snd (run cs s')) x = vars s' x" by (simp add: keeps_def)
    with cs s' None show ?thesis by simp
  next
    case (Some e)
    with cs s' show ?thesis by simp
  qed
qed





lemma bound_mono: "bound X s \<Longrightarrow> vars s' = vars s \<Longrightarrow> bound X s'"
  by (simp add: bound_def)

lemma safe_e_ret [safe_intros]: "safe_e X (ret v)"
  by (simp add: safe_e_def ret_def)

lemma safe_e_lift [safe_intros]: "safe_e X (lift r)"
  by (simp add: safe_e_def lift_def split: sum.splits)

lemma safe_e_extern [safe_intros]: "safe_e X (extern r)"
  by (simp add: safe_e_def extern_def split: sum.splits)

lemma safe_e_var [safe_intros]: "x \<in> X \<Longrightarrow> safe_e X (var x)"
  by (auto simp: safe_e_def var_def bound_def split: option.splits)

lemma safe_e_randn [safe_intros]: "safe_e X (np_randn W n)"
  by (auto simp: safe_e_def np_randn_def bound_def split: prod.splits)

lemma safe_e_bnd [safe_intros]:
  assumes "safe_e X m" and "\<And>v. safe_e X (f v)"
  shows "safe_e X (bnd m f)"
  unfolding safe_e_def
proof (intro allI impI)
  fix s :: "'a kernel"
  assume b: "bound X s"
  obtain r s' where ms: "m s = (r, s')" by (cases "m s")
  from assms(1) b ms have r: "\<forall>x. r \<noteq> Inl (NameError x)" and b': "bound X s'"
    by (auto simp: safe_e_def dest: spec [of _ s])
  show "(\<forall>x. fst (bnd m f s) \<noteq> Inl (NameError x)) \<and> bound X (snd (bnd m f s))"
  proof (cases r)
    case (Inl e)
    with ms r b' show ?thesis by (simp add: bnd_def)
  next
    case (Inr v)
    from assms(2) [of v] b'
    have "(\<forall>x. fst (f v s') \<noteq> Inl (NameError x)) \<and> bound X (snd (f v s'))"
      by (simp add: safe_e_def)
    with ms Inr show ?thesis by (simp add: bnd_def)
  qed
qed

lemma safe_e_var_list [safe_intros]: "set xs \<subseteq> X \<Longrightarrow> safe_e X (var_list xs)"
  by (induction xs) (auto intro!: safe_intros)

lemma safe_e_table [safe_intros]: "x \<in> X \<Longrightarrow> safe_e X (table x)"
  unfolding table_def by (auto intro!: safe_intros split: val.splits)

lemma safe_e_lib_expr [safe_intros]: "set xs \<subseteq> X \<Longrightarrow> safe_e X (lib_expr W t xs)"
  unfolding lib_expr_def by (auto intro!: safe_intros)

lemma safe_assign [safe_intros]:
  assumes "safe_e X m"
  shows "safe X (assign y m) (insert y X)"
  unfolding safe_def
proof (intro allI impI)
  fix s :: "'a kernel"
  assume b: "bound X s"
  obtain r s' where ms: "m s = (r, s')" by (cases "m s")
  from assms b ms have r: "\<forall>x. r \<noteq> Inl (NameError x)" and b': "bound X s'"
    by (auto simp: safe_e_def dest: spec [of _ s])
  from ms r b' show "(\<forall>x. fst (assign y m s) \<noteq> Some (NameError x))
      \<and> (fst (assign y m s) = None \<longrightarrow> bound (insert y X) (snd (assign y m s)))"
    by (cases r) (auto simp: assign_def bound_def)
qed

lemma safe_display [safe_intros]:
  assumes "safe_e X m"
  shows "safe X (display m) X"
  unfolding safe_def
proof (intro allI impI)
  fix s :: "'a kernel"
  assume b: "bound X s"
  obtain r s' where ms: "m s = (r, s')" by (cases "m s")
  from assms b ms have r: "\<forall>x. r \<noteq> Inl (NameError x)" and b': "bound X s'"
    by (auto simp: safe_e_def dest: spec [of _ s])
  from ms r b' show "(\<forall>x. fst (display m s) \<noteq> Some (NameError x))
      \<and> (fst (display m s) = None \<longrightarrow> bound X (snd (display m s)))"
    by (cases r) (auto simp: display_def bound_def)
qed

lemma safe_seed [safe_intros]: "safe X (np_seed W n) X"
  by (simp add: safe_def np_seed_def bound_def)

lemma safe_run_Nil [safe_intros]: "safe X (run []) X"
  by (simp add: safe_def)

lemma safe_run_Cons [safe_intros]:
  assumes "safe X c Y" and "safe Y (run cs) Z"
  shows "safe X (run (c # cs)) Z"
  unfolding safe_def
proof (intro allI impI)
  fix s :: "'a kernel"
  assume b: "bound X s"
  obtain r s' where cs: "c s = (r, s')" by (cases "c s")
  from assms(1) b cs have r: "\<forall>x. r \<noteq> Some (NameError x)" and b': "r = None \<longrightarrow> bound Y s'"
    by (auto simp: safe_def dest: spec [of _ s])
  show "(\<forall>x. fst (run (c # cs) s) \<noteq> Some (NameError x))
      \<and> (fst (run (c # cs) s) = None \<longrightarrow> bound Z (snd (run (c # cs) s)))"
  proof (cases r)
    case None
    with b' have "bound Y s'" by simp
    with assms(2) have "(\<forall>x. fst (run cs s') \<noteq> Some (NameError x))
      \<and> (fst (run cs s') = None \<longrightarrow> bound Z (snd (run cs s')))"
      by (simp add: safe_def)
    with cs None show ?thesis by simp
  next
    case (Some e)
    with cs r show ?thesis by simp
  qed
qed



section \<open>Running cells\<close>





lemma var_unbound: "vars s x = None \<Longrightarrow> var x s = (Inl (NameError x), s)"
  by (simp add: var_def)



lemma and_then_Inr:
  "and_then m f = Inr y \<longleftrightarrow> (\<exists>v. m = Inr v \<and> f v = Inr y)"
  by (cases m) (simp_all add: and_then_def)

section \<open>The functions the notebooks define are compositions of library calls\<close>




section \<open>Failures of library calls reach the cell's output\<close>



section \<open>Tables live across cells\<close>







section \<open>The expiration of the cached session\<close>






section \<open>Tables are built before they are used\<close>



section \<open>Seeded construction repeats\<close>

lemma mck_df_run:
  "mck_df W s =
     (case randn W (seed W 42) 5 of (d1, g1) \<Rightarrow>
      case randn W g1 5 of (d2, g2) \<Rightarrow>
      case DataFrame_of_dict
             [(''key1'', map Str [''a'', ''a'', ''b'', ''b'', ''a'']),
              (''key2'', map Str [''one'', ''two'', ''one'', ''two'', ''one'']),
              (''data1'', map Num d1), (''data2'', map Num d2)] of
        Inl e \<Rightarrow> (Some (Raised e), s\<lparr>rng := g2\<rparr>)
      | Inr f \<Rightarrow> (None, s\<lparr>rng := g2, vars := (vars s)(''df'' \<mapsto> Table f)\<rparr>))"
  by (simp add: mck_df_def np_seed_def assign_def bnd_def np_randn_def lift_def ret_def
      split: prod.splits sum.splits)

lemma mck_people_run:
  "mck_people W s =
     (case randn W (seed W 42) 25 of (d, g) \<Rightarrow>
      case DataFrame_of_rows (reshape 5 5 (map Num d)) [''a'', ''b'', ''c'', ''d'', ''e'']
             (map Name [''Joe'', ''Steve'', ''Wes'', ''Jim'', ''Travis'']) of
        Inl e \<Rightarrow> (Some (Raised e), s\<lparr>rng := g\<rparr>)
      | Inr f \<Rightarrow> (None, s\<lparr>rng := g, vars := (vars s)(''people'' \<mapsto> Table f)\<rparr>))"
  by (simp add: mck_people_def np_seed_def assign_def bnd_def np_randn_def lift_def ret_def
      split: prod.splits sum.splits)

text \<open>
  C7. The cells that seed the generator with 42 and build \<open>df\<close> and \<open>people\<close>
  do the same from any two kernel states: the same outcome, the same generator state
  afterwards, and where the construction succeeds the same table, with the columns
  \<open>key1, key2, data1, data2\<close> for \<open>df\<close> and \<open>a\<close> to \<open>e\<close> for
  \<open>people\<close>. It succeeds when the generator returns as many numbers as it is
  asked for.
\<close>

theorem seeded_tables_repeat:
  "fst (mck_df W s1) = fst (mck_df W s2)
   \<and> rng (snd (mck_df W s1)) = rng (snd (mck_df W s2))
   \<and> (fst (mck_df W s1) = None \<longrightarrow>
        vars (snd (mck_df W s1)) ''df'' = vars (snd (mck_df W s2)) ''df''
        \<and> (\<exists>f. vars (snd (mck_df W s1)) ''df'' = Some (Table f)
               \<and> columns f = [''key1'', ''key2'', ''data1'', ''data2'']))
   \<and> fst (mck_people W s1) = fst (mck_people W s2)
   \<and> rng (snd (mck_people W s1)) = rng (snd (mck_people W s2))
   \<and> (fst (mck_people W s1) = None \<longrightarrow>
        vars (snd (mck_people W s1)) ''people'' = vars (snd (mck_people W s2)) ''people''
        \<and> (\<exists>f. vars (snd (mck_people W s1)) ''people'' = Some (Table f)
               \<and> columns f = [''a'', ''b'', ''c'', ''d'', ''e'']))
   \<and> ((\<forall>g n. length (fst (randn W g n)) = n) \<longrightarrow>
        fst (mck_df W s1) = None \<and> fst (mck_people W s1) = None)"
proof -
  have df: "fst (mck_df W s1) = fst (mck_df W s2)
      \<and> rng (snd (mck_df W s1)) = rng (snd (mck_df W s2))
      \<and> (fst (mck_df W s1) = None \<longrightarrow>
        vars (snd (mck_df W s1)) ''df'' = vars (snd (mck_df W s2)) ''df''
        \<and> (\<exists>f. vars (snd (mck_df W s1)) ''df'' = Some (Table f)
               \<and> columns f = [''key1'', ''key2'', ''data1'', ''data2'']))"
    by (auto simp: mck_df_run DataFrame_of_dict_def split: prod.splits sum.splits if_splits)
  have people: "fst (mck_people W s1) = fst (mck_people W s2)
      \<and> rng (snd (mck_people W s1)) = rng (snd (mck_people W s2))
      \<and> (fst (mck_people W s1) = None \<longrightarrow>
        vars (snd (mck_people W s1)) ''people'' = vars (snd (mck_people W s2)) ''people''
        \<and> (\<exists>f. vars (snd (mck_people W s1)) ''people'' = Some (Table f)
               \<and> columns f = [''a'', ''b'', ''c'', ''d'', ''e'']))"
    by (auto simp: mck_people_run DataFrame_of_rows_def split: prod.splits sum.splits if_splits)
  have ok: "(\<forall>g n. length (fst (randn W g n)) = n) \<longrightarrow>
        fst (mck_df W s1) = None \<and> fst (mck_people W s1) = None"
  proof
    assume len: "\<forall>g n. length (fst (randn W g n)) = n"
    have l: "randn W g n = (d, g') \<Longrightarrow> length d = n" for g n d g'
      using len by (metis fst_conv)
    have "fst (mck_df W s1) = None"
      by (auto simp: mck_df_run DataFrame_of_dict_def dest: l split: prod.splits sum.splits if_splits)
    moreover have "fst (mck_people W s1) = None"
      by (auto simp: mck_people_run DataFrame_of_rows_def reshape_def list_all_iff dest!: l
          split: prod.splits sum.splits if_splits)
    ultimately show "fst (mck_df W s1) = None \<and> fst (mck_people W s1) = None" by simp
  qed
  from df people ok show ?thesis by blast
qed

theorem seeded_tables_repeat_witness:
  "fst (mck_df offline fresh) = None
   \<and> vars (snd (mck_df offline fresh)) ''df'' = vars (snd (mck_df offline (fresh\<lparr>rng := 7\<rparr>))) ''df''"
proof -
  have len: "\<forall>g n. length (fst (randn offline g n)) = n" by (simp add: offline_def)
  note t = seeded_tables_repeat [where W = offline and ?s1.0 = fresh and ?s2.0 = "fresh\<lparr>rng := 7\<rparr>"]
  from t [THEN conjunct2, THEN conjunct2, THEN conjunct2, THEN conjunct2, THEN conjunct2,
      THEN conjunct2] len
  have ok: "fst (mck_df offline fresh) = None" by blast
  from t [THEN conjunct2, THEN conjunct2, THEN conjunct1] ok
  have "vars (snd (mck_df offline fresh)) ''df'' = vars (snd (mck_df offline (fresh\<lparr>rng := 7\<rparr>))) ''df''"
    by blast
  with ok show ?thesis by blast
qed

section \<open>The range of an array\<close>







section \<open>The rows with the smallest values\<close>




section \<open>The monthly tables\<close>

lemma series_mean_not_str: "\<not> is_str (series_mean cs)"
  by (simp add: series_mean_def)

lemma series_std_not_str: "\<not> is_str (series_std cs)"
  by (simp add: series_std_def Let_def)

lemma spy_m_rows:
  assumes "spy_m spy = Inr t"
  shows "columns t = [''mean'', ''std'']"
    and "\<forall>r\<in>set (rows t). \<exists>k. r = monthly_row spy k \<and> 15 \<le> series_count (month_returns spy k)"
proof -
  from assms obtain r g q d where
    r: "resample_M spy = Inr r" and g: "pick r ''Return'' = Inr g"
    and q: "query_ge (agg_mean_std_count g) ''count'' 15 = Inr q"
    and d: "drop_columns q [''count''] = Inr d" and t: "frame_mul d 100 = Inr t"
    unfolding spy_m_def and_then_Inr by blast
  from r obtain ks where
    bins: "bins r = map (\<lambda>k. (Month k, filter (\<lambda>r. month_of (fst r) = Some k) (rows spy))) ks"
    by (auto simp: resample_M_def Let_def simp del: upt_Suc split: if_splits)
  from g bins have g': "g = map (\<lambda>k. (Month k, month_returns spy k)) ks"
    by (auto simp: pick_def month_returns_def split: if_splits)
  from q have q': "q = \<lparr>columns = [''mean'', ''std'', ''count''],
      rows = filter (\<lambda>r. cell_ge (cell_of ''count'' r) 15) (rows (agg_mean_std_count g))\<rparr>"
    by (auto simp: query_ge_def agg_mean_std_count_def split: if_splits)
  from d q' have cd: "columns d = [''mean'', ''std'']"
    by (auto simp: drop_columns_def split: list.splits)
  from t have ct: "columns t = columns d"
    by (auto simp: frame_mul_def split: if_splits)
  from cd ct show "columns t = [''mean'', ''std'']" by simp
  show "\<forall>r\<in>set (rows t). \<exists>k. r = monthly_row spy k \<and> 15 \<le> series_count (month_returns spy k)"
  proof
    fix x assume "x \<in> set (rows t)"
    with t obtain y where y: "y \<in> set (rows d)"
      and x: "x = (fst y, map (\<lambda>(k, c). (k, cell_mul 100 c)) (snd y))"
      by (auto simp: frame_mul_def split: if_splits)
    from y d obtain z where z: "z \<in> set (rows q)"
      and yz: "y = (fst z, filter (\<lambda>(k, v). k \<notin> set [''count'']) (snd z))"
      by (auto simp: drop_columns_def split: list.splits)
    from z q' have zin: "z \<in> set (rows (agg_mean_std_count g))" and zge: "cell_ge (cell_of ''count'' z) 15"
      by auto
    from zin g' obtain k where k: "z = (Month k, [(''mean'', series_mean (month_returns spy k)),
          (''std'', series_std (month_returns spy k)),
          (''count'', Num (real (series_count (month_returns spy k))))])"
      by (auto simp: agg_mean_std_count_def)
    from zge k have "15 \<le> series_count (month_returns spy k)"
      by (simp add: cell_of_def)
    moreover from x yz k have "x = monthly_row spy k"
      by (simp add: monthly_row_def)
    ultimately show "\<exists>k. x = monthly_row spy k \<and> 15 \<le> series_count (month_returns spy k)"
      by blast
  qed
qed

lemma spy_m_lag_rows:
  assumes "spy_m_lag spy = Inr t"
  shows "\<exists>base. spy_m spy = Inr base \<and> columns t = [''mean'', ''std'', ''mean_lag1'']
           \<and> rows t = with_lag (rows base)"
proof -
  from assms obtain base m where b: "spy_m spy = Inr base" and m: "column base ''mean'' = Inr m"
    and s: "set_column base ''mean_lag1'' (shift1 m) = Inr t"
    unfolding spy_m_lag_def and_then_Inr by blast
  note cols = spy_m_rows(1) [OF b]
  note rws = spy_m_rows(2) [OF b]
  from m cols have m': "m = map (cell_of ''mean'') (rows base)"
    by (simp add: column_def)
  from s cols have ct: "columns t = [''mean'', ''std'', ''mean_lag1'']"
    by (auto simp: set_column_def split: if_splits)
  have put: "put_cell ''mean_lag1'' v (snd r) = snd r @ [(''mean_lag1'', v)]" if "r \<in> set (rows base)" for r v
  proof -
    from rws that obtain k where "r = monthly_row spy k" by blast
    then show ?thesis by (simp add: monthly_row_def put_cell_def)
  qed
  from s have "rows t = map (\<lambda>((l, kvs), v). (l, put_cell ''mean_lag1'' v kvs)) (zip (rows base) (shift1 m))"
    by (auto simp: set_column_def split: if_splits)
  also have "\<dots> = map (\<lambda>((l, kvs), v). (l, kvs @ [(''mean_lag1'', v)])) (zip (rows base) (shift1 m))"
  proof (rule map_cong [OF refl])
    fix p assume "p \<in> set (zip (rows base) (shift1 m))"
    then have "fst p \<in> set (rows base)" by (metis in_set_zipE prod.collapse)
    from put [OF this, of "snd p"] show "(case p of (x, xa) \<Rightarrow> (case x of (l, kvs) \<Rightarrow> \<lambda>v. (l, put_cell ''mean_lag1'' v kvs)) xa) =
         (case p of (x, xa) \<Rightarrow> (case x of (l, kvs) \<Rightarrow> \<lambda>v. (l, kvs @ [(''mean_lag1'', v)])) xa)"
      by (auto split: prod.splits)
  qed
  finally have "rows t = with_lag (rows base)" by (simp add: with_lag_def m')
  with b ct show ?thesis by blast
qed

lemma spy_m_two_months: "spy_m two_months = Inr january"
proof -
  have r: "rows two_months
     = map (\<lambda>d. (Day 2020 1 (Suc d), [(''Return'', Num (1 / 100))])) [0..<15]
       @ map (\<lambda>d. (Day 2020 2 (Suc d), [(''Return'', Num (1 / 50))])) [0..<3]"
    by (simp add: two_months_def returns_of_def)
  show ?thesis
    unfolding spy_m_def january_def
    by (simp add: two_months_def returns_of_def upt_rec resample_M_def and_then_def
        List.map_filter_def pick_def cell_of_def agg_mean_std_count_def series_mean_def
        series_std_def series_count_def query_ge_def drop_columns_def frame_mul_def)
qed

text \<open>
  C10, as stated, fails for the second of the two tables: on fifteen January returns of
  1% and three February returns, the table built at lines 1241 to 1250 has the three
  columns \<open>mean\<close>, \<open>std\<close> and \<open>mean_lag1\<close>, not the mean and the standard
  deviation only.
\<close>

theorem spy_m_lag_has_third_column:
  "spy_m_lag two_months
     = Inr \<lparr>columns = [''mean'', ''std'', ''mean_lag1''],
            rows = [(Month 24240, [(''mean'', Num 1), (''std'', Num 0), (''mean_lag1'', NaN)])]\<rparr>"
  by (simp add: spy_m_lag_def spy_m_two_months january_def and_then_def column_def cell_of_def
      set_column_def shift1_def put_cell_def)

text \<open>
  C10, amended. Every row of either monthly table is built from a calendar month with
  at least 15 daily returns that are not missing, and the count is dropped. The table
  built at lines 1118 to 1126 keeps only the mean and the standard deviation of that
  month's daily returns, each multiplied by 100. The table built at lines 1241 to 1250
  keeps the same rows and adds a third column, \<open>mean_lag1\<close>: the mean of the row
  above, missing in the first row.
\<close>

theorem monthly_tables:
  "(spy_m spy = Inr t \<longrightarrow>
      columns t = [''mean'', ''std'']
      \<and> (\<forall>r\<in>set (rows t). \<exists>k. r = monthly_row spy k
                                  \<and> 15 \<le> series_count (month_returns spy k)))
   \<and> (spy_m_lag spy = Inr u \<longrightarrow>
        (\<exists>base. spy_m spy = Inr base
           \<and> columns u = [''mean'', ''std'', ''mean_lag1'']
           \<and> rows u = with_lag (rows base)))"
proof -
  have 1: "spy_m spy = Inr t \<longrightarrow>
      columns t = [''mean'', ''std'']
      \<and> (\<forall>r\<in>set (rows t). \<exists>k. r = monthly_row spy k
                                  \<and> 15 \<le> series_count (month_returns spy k))"
    using spy_m_rows by blast
  have 2: "spy_m_lag spy = Inr u \<longrightarrow>
        (\<exists>base. spy_m spy = Inr base
           \<and> columns u = [''mean'', ''std'', ''mean_lag1'']
           \<and> rows u = with_lag (rows base))"
    using spy_m_lag_rows by blast
  from 1 2 show ?thesis by blast
qed

theorem monthly_tables_witness:
  "spy_m two_months = Inr january \<and> columns january = [''mean'', ''std'']
   \<and> 15 \<le> series_count (month_returns two_months 24240)"
proof -
  note m = spy_m_two_months
  from monthly_tables [where spy = two_months and t = january] m
  have cols: "columns january = [''mean'', ''std'']"
    and all: "\<forall>r\<in>set (rows january). \<exists>k. r = monthly_row two_months k
                \<and> 15 \<le> series_count (month_returns two_months k)"
    by blast+
  from all obtain k where k: "(Month 24240, [(''mean'', Num 1), (''std'', Num 0)]) = monthly_row two_months k"
    and c: "15 \<le> series_count (month_returns two_months k)"
    by (auto simp: january_def)
  from k have "k = 24240" by (simp add: monthly_row_def)
  with c m cols show ?thesis by simp
qed


end
